theory Spec2Isabelle
  imports Main "HOL-Library.Word"
begin

section \<open>The external scanner of the dang grammar (src/treesitter/src/scanner.c)\<close>

subsection \<open>Data model\<close>

text \<open>
  Characters are the \<open>int32_t\<close> code points that the host lexer hands out; token kinds
  are \<open>TSSymbol\<close>, an unsigned 16-bit integer.  The character constants of the source are
  written by their code: newline 10, space 32, tab 9, carriage return 13, dot 46,
  opening brace 123, pipe 124.
\<close>

type_synonym int32_t = "32 word"
type_synonym TSSymbol = "16 word"

text \<open>
  A \<open>void *\<close> is the null pointer or an address.  Memory outside the lexer is a store
  from addresses to bytes.
\<close>

datatype void_ptr = NULL | Addr nat

type_synonym memory = "nat \<rightharpoonup> 8 word"

text \<open>
  Modelled from the spec: the host lexer \<open>TSLexer\<close> of \<open>tree_sitter/parser.h\<close>, which is
  not part of the sources.  The spec describes the cursor as a position into the input
  stream that exposes the next unconsumed character or an end-of-input marker, an
  operation that consumes the current character, and a query for "no more input".
  The cursor is the split of the input into the characters already consumed and the
  characters still ahead; the end-of-input marker seen in \<open>lookahead\<close> is 0; advancing
  at end-of-input does nothing.  The flag of \<open>advance\<close> only tells the host whether the
  character belongs to the token and does not influence the cursor.
\<close>

record TSLexer =
  consumed :: "int32_t list"
  remaining :: "int32_t list"
  result_symbol :: TSSymbol

definition lookahead :: "TSLexer \<Rightarrow> int32_t" where
  "lookahead lexer = (case remaining lexer of [] \<Rightarrow> 0 | c # cs \<Rightarrow> c)"

definition eof :: "TSLexer \<Rightarrow> bool" where
  "eof lexer = (case remaining lexer of [] \<Rightarrow> True | c # cs \<Rightarrow> False)"

definition advance :: "TSLexer \<Rightarrow> bool \<Rightarrow> TSLexer" where
  "advance lexer skip =
     (case remaining lexer of
        [] \<Rightarrow> lexer
      | c # cs \<Rightarrow> lexer\<lparr>consumed := consumed lexer @ [c], remaining := cs\<rparr>)"

subsection \<open>The scanner\<close>

text \<open>The only external token; its number is its place in the enumeration.\<close>

definition AUTOMATIC_NEWLINE :: nat where
  "AUTOMATIC_NEWLINE = 0"

text \<open>The four lifecycle functions, as state transformers of the memory.\<close>

definition tree_sitter_dang_external_scanner_create :: "memory \<Rightarrow> void_ptr \<times> memory" where
  "tree_sitter_dang_external_scanner_create mem = (NULL, mem)"

definition tree_sitter_dang_external_scanner_destroy :: "void_ptr \<Rightarrow> memory \<Rightarrow> memory" where
  "tree_sitter_dang_external_scanner_destroy payload mem = mem"

definition tree_sitter_dang_external_scanner_serialize ::
    "void_ptr \<Rightarrow> void_ptr \<Rightarrow> memory \<Rightarrow> 32 word \<times> memory" where
  "tree_sitter_dang_external_scanner_serialize payload buffer mem = (0, mem)"

definition tree_sitter_dang_external_scanner_deserialize ::
    "void_ptr \<Rightarrow> void_ptr \<Rightarrow> 32 word \<Rightarrow> memory \<Rightarrow> memory" where
  "tree_sitter_dang_external_scanner_deserialize payload buffer len mem = mem"

text \<open>The \<open>switch\<close> over dot, opening brace and pipe.\<close>

definition is_continuation_start :: "int32_t \<Rightarrow> bool" where
  "is_continuation_start c =
     (if c = 46 then True
      else if c = 123 then True
      else if c = 124 then True
      else False)"

text \<open>
  The \<open>while\<close> loop of the scanner: as long as the lookahead is a space, a tab, a carriage
  return or a newline, advance.
\<close>

function skip_whitespace :: "TSLexer \<Rightarrow> TSLexer" where
  "skip_whitespace lexer =
     (if lookahead lexer = 32 \<or> lookahead lexer = 9 \<or>
         lookahead lexer = 13 \<or> lookahead lexer = 10
      then skip_whitespace (advance lexer False)
      else lexer)"
  by pat_completeness auto

termination
proof (relation "measure (\<lambda>lexer. length (remaining lexer))")
  show "wf (measure (\<lambda>lexer. length (remaining lexer)))"
    by simp
next
  fix lexer :: TSLexer
  assume "lookahead lexer = 32 \<or> lookahead lexer = 9 \<or>
          lookahead lexer = 13 \<or> lookahead lexer = 10"
  then have "remaining lexer \<noteq> []"
    by (auto simp: lookahead_def)
  then show "(advance lexer False, lexer) \<in> measure (\<lambda>lexer. length (remaining lexer))"
    by (cases "remaining lexer") (simp_all add: advance_def)
qed

declare skip_whitespace.simps [simp del]

text \<open>
  The scan function.  \<open>valid_symbols\<close> is the array of flags, read at the index of the
  token; the result is the returned \<open>bool\<close> together with the lexer as the call leaves it.
\<close>

definition tree_sitter_dang_external_scanner_scan ::
    "void_ptr \<Rightarrow> TSLexer \<Rightarrow> (nat \<Rightarrow> bool) \<Rightarrow> bool \<times> TSLexer" where
  "tree_sitter_dang_external_scanner_scan payload lexer valid_symbols =
     (if \<not> valid_symbols AUTOMATIC_NEWLINE then (False, lexer)
      else if lookahead lexer \<noteq> 10 then (False, lexer)
      else
        let lexer1 = advance lexer False;
            lexer2 = skip_whitespace lexer1
        in if is_continuation_start (lookahead lexer2) then (False, lexer2)
           else if eof lexer2 then (False, lexer2)
           else (True, lexer2\<lparr>result_symbol := of_nat AUTOMATIC_NEWLINE\<rparr>))"

text \<open>
  The host calls the five entry points in any order.  A call is run on the memory and the
  lexer; what it returns is dropped here, the claims about the returned values are stated
  on the functions themselves.
\<close>

datatype call =
    Create
  | Destroy void_ptr
  | Serialize void_ptr void_ptr
  | Deserialize void_ptr void_ptr "32 word"
  | Scan void_ptr "nat \<Rightarrow> bool"

fun run_call :: "call \<Rightarrow> memory \<times> TSLexer \<Rightarrow> memory \<times> TSLexer" where
  "run_call Create (mem, lexer) = (snd (tree_sitter_dang_external_scanner_create mem), lexer)"
| "run_call (Destroy p) (mem, lexer) = (tree_sitter_dang_external_scanner_destroy p mem, lexer)"
| "run_call (Serialize p b) (mem, lexer) =
     (snd (tree_sitter_dang_external_scanner_serialize p b mem), lexer)"
| "run_call (Deserialize p b n) (mem, lexer) =
     (tree_sitter_dang_external_scanner_deserialize p b n mem, lexer)"
| "run_call (Scan p vs) (mem, lexer) =
     (mem, snd (tree_sitter_dang_external_scanner_scan p lexer vs))"

fun run_calls :: "call list \<Rightarrow> memory \<times> TSLexer \<Rightarrow> memory \<times> TSLexer" where
  "run_calls [] s = s"
| "run_calls (c # cs) s = run_calls cs (run_call c s)"

section \<open>Properties\<close>

subsection \<open>The whitespace loop\<close>

lemma skip_whitespace_remaining:
  "remaining lexer = ws @ rest \<Longrightarrow> set ws \<subseteq> {32, 9, 13, 10} \<Longrightarrow>
   (case rest of [] \<Rightarrow> True | c # cs \<Rightarrow> c \<notin> {32, 9, 13, 10}) \<Longrightarrow>
   skip_whitespace lexer = lexer\<lparr>consumed := consumed lexer @ ws, remaining := rest\<rparr>"
proof (induction ws arbitrary: lexer)
  case Nil
  then have "\<not> (lookahead lexer = 32 \<or> lookahead lexer = 9 \<or>
                lookahead lexer = 13 \<or> lookahead lexer = 10)"
    by (cases rest) (auto simp: lookahead_def)
  then have "skip_whitespace lexer = lexer"
    by (subst skip_whitespace.simps) simp
  with Nil show ?case by simp
next
  case (Cons w ws)
  let ?lexer' = "advance lexer False"
  from Cons.prems have adv: "?lexer' = lexer\<lparr>consumed := consumed lexer @ [w], remaining := ws @ rest\<rparr>"
    by (simp add: advance_def)
  from Cons.prems have "lookahead lexer = 32 \<or> lookahead lexer = 9 \<or>
                        lookahead lexer = 13 \<or> lookahead lexer = 10"
    by (auto simp: lookahead_def)
  then have "skip_whitespace lexer = skip_whitespace ?lexer'"
    by (subst skip_whitespace.simps) simp
  also have "\<dots> = ?lexer'\<lparr>consumed := consumed ?lexer' @ ws, remaining := rest\<rparr>"
    using Cons.prems by (intro Cons.IH) (simp_all add: adv)
  finally show ?case by (simp add: adv)
qed

lemma skip_whitespace_takeWhile:
  "skip_whitespace lexer =
     lexer\<lparr>consumed := consumed lexer @ takeWhile (\<lambda>c. c \<in> {32, 9, 13, 10}) (remaining lexer),
           remaining := dropWhile (\<lambda>c. c \<in> {32, 9, 13, 10}) (remaining lexer)\<rparr>"
proof (rule skip_whitespace_remaining)
  let ?P = "\<lambda>c::int32_t. c \<in> {32, 9, 13, 10}"
  show "remaining lexer = takeWhile ?P (remaining lexer) @ dropWhile ?P (remaining lexer)"
    by simp
  show "set (takeWhile ?P (remaining lexer)) \<subseteq> {32, 9, 13, 10}"
    using set_takeWhileD [of _ ?P "remaining lexer"] by blast
  show "case dropWhile ?P (remaining lexer) of [] \<Rightarrow> True | c # cs \<Rightarrow> c \<notin> {32, 9, 13, 10}"
  proof (cases "dropWhile ?P (remaining lexer)")
    case Nil
    show ?thesis by (subst Nil) simp
  next
    case (Cons c cs)
    then have "\<not> ?P c"
      using dropWhile_eq_Cons_conv [of ?P "remaining lexer" c cs] by blast
    then show ?thesis by (subst Cons) simp
  qed
qed

lemma skip_whitespace_result_symbol:
  "result_symbol (skip_whitespace lexer) = result_symbol lexer"
  by (subst skip_whitespace_takeWhile) simp

lemma advance_result_symbol:
  "result_symbol (advance lexer skip) = result_symbol lexer"
  by (cases "remaining lexer") (simp_all add: advance_def)

lemma advance_input:
  "consumed (advance lexer skip) @ remaining (advance lexer skip) =
   consumed lexer @ remaining lexer"
  by (cases "remaining lexer") (simp_all add: advance_def)

lemma skip_whitespace_input:
  "consumed (skip_whitespace lexer) @ remaining (skip_whitespace lexer) =
   consumed lexer @ remaining lexer"
  by (subst (1 2) skip_whitespace_takeWhile) simp

subsection \<open>The scan function, path by path\<close>

lemma scan_guards:
  "\<not> valid_symbols AUTOMATIC_NEWLINE \<or> lookahead lexer \<noteq> 10 \<Longrightarrow>
   tree_sitter_dang_external_scanner_scan payload lexer valid_symbols = (False, lexer)"
  by (auto simp: tree_sitter_dang_external_scanner_scan_def)

lemma scan_after_newline:
  assumes "valid_symbols AUTOMATIC_NEWLINE"
    and "remaining lexer = 10 # ws @ rest"
    and "set ws \<subseteq> {32, 9, 13, 10}"
    and "case rest of [] \<Rightarrow> True | c # cs \<Rightarrow> c \<notin> {32, 9, 13, 10}"
  shows "tree_sitter_dang_external_scanner_scan payload lexer valid_symbols =
     (let lexer2 = lexer\<lparr>consumed := consumed lexer @ 10 # ws, remaining := rest\<rparr>
      in if is_continuation_start (lookahead lexer2) then (False, lexer2)
         else if eof lexer2 then (False, lexer2)
         else (True, lexer2\<lparr>result_symbol := of_nat AUTOMATIC_NEWLINE\<rparr>))"
proof -
  let ?lexer1 = "advance lexer False"
  have look: "lookahead lexer = 10"
    using assms(2) by (simp add: lookahead_def)
  have adv: "?lexer1 = lexer\<lparr>consumed := consumed lexer @ [10], remaining := ws @ rest\<rparr>"
    using assms(2) by (simp add: advance_def)
  have "skip_whitespace ?lexer1 =
        ?lexer1\<lparr>consumed := consumed ?lexer1 @ ws, remaining := rest\<rparr>"
    using assms(3,4) by (intro skip_whitespace_remaining) (simp_all add: adv)
  then have skip: "skip_whitespace ?lexer1 =
        lexer\<lparr>consumed := consumed lexer @ 10 # ws, remaining := rest\<rparr>"
    by (simp add: adv)
  show ?thesis
    unfolding tree_sitter_dang_external_scanner_scan_def Let_def skip
    using assms(1) look by simp
qed

lemma scan_separator:
  assumes "valid_symbols AUTOMATIC_NEWLINE"
    and "remaining lexer = 10 # ws @ c # rest"
    and "set ws \<subseteq> {32, 9, 13, 10}"
    and "c \<notin> {32, 9, 13, 10}"
    and "c \<notin> {46, 123, 124}"
  shows "tree_sitter_dang_external_scanner_scan payload lexer valid_symbols =
     (True, lexer\<lparr>consumed := consumed lexer @ 10 # ws, remaining := c # rest,
                  result_symbol := of_nat AUTOMATIC_NEWLINE\<rparr>)"
proof -
  have "\<not> is_continuation_start c"
    using assms(5) by (simp add: is_continuation_start_def)
  moreover have "case c # rest of [] \<Rightarrow> True | c # cs \<Rightarrow> c \<notin> {32, 9, 13, 10}"
    using assms(4) by simp
  ultimately show ?thesis
    using scan_after_newline [of valid_symbols lexer ws "c # rest" payload] assms(1,2,3)
    by (simp add: Let_def lookahead_def eof_def)
qed

lemma scan_true_shape:
  assumes "fst (tree_sitter_dang_external_scanner_scan payload lexer valid_symbols)"
  shows "\<exists>ws c rest. remaining lexer = 10 # ws @ c # rest \<and> set ws \<subseteq> {32, 9, 13, 10} \<and>
           c \<notin> {32, 9, 13, 10} \<and> c \<notin> {46, 123, 124}"
proof -
  let ?P = "\<lambda>c::int32_t. c \<in> {32, 9, 13, 10}"
  have valid: "valid_symbols AUTOMATIC_NEWLINE" and look: "lookahead lexer = 10"
    using assms scan_guards [of valid_symbols lexer payload] by fastforce+
  from look obtain r where r: "remaining lexer = 10 # r"
    by (cases "remaining lexer") (simp_all add: lookahead_def)
  define ws where "ws = takeWhile ?P r"
  define tail where "tail = dropWhile ?P r"
  have split: "remaining lexer = 10 # ws @ tail"
    by (simp add: r ws_def tail_def)
  have ws: "set ws \<subseteq> {32, 9, 13, 10}"
    unfolding ws_def using set_takeWhileD [of _ ?P r] by blast
  have tail: "case tail of [] \<Rightarrow> True | c # cs \<Rightarrow> c \<notin> {32, 9, 13, 10}"
  proof (cases tail)
    case Nil
    show ?thesis by (subst Nil) simp
  next
    case (Cons c cs)
    then have "\<not> ?P c"
      using dropWhile_eq_Cons_conv [of ?P r c cs] by (simp add: tail_def)
    then show ?thesis by (subst Cons) simp
  qed
  note scan = scan_after_newline [of valid_symbols lexer ws tail payload, OF valid split ws tail]
  show ?thesis
  proof (cases tail)
    case Nil
    with assms scan show ?thesis
      by (simp add: Let_def eof_def split: if_splits)
  next
    case (Cons c cs)
    with tail have c_ws: "c \<notin> {32, 9, 13, 10}"
      by simp
    from assms scan Cons have "\<not> is_continuation_start c"
      by (simp add: Let_def lookahead_def split: if_splits)
    then have "c \<notin> {46, 123, 124}"
      by (auto simp: is_continuation_start_def)
    with split ws c_ws Cons show ?thesis
      by blast
  qed
qed

lemma run_call_memory: "fst (run_call c s) = fst s"
  by (cases c; cases s)
     (simp_all add: tree_sitter_dang_external_scanner_create_def
        tree_sitter_dang_external_scanner_destroy_def
        tree_sitter_dang_external_scanner_serialize_def
        tree_sitter_dang_external_scanner_deserialize_def)

lemma run_calls_memory: "fst (run_calls cs s) = fst s"
  by (induction cs arbitrary: s) (simp_all add: run_call_memory)

subsection \<open>The scan function on the inputs of the spec\<close>

text \<open>
  The loop is unfolded on each input: a newline and \<open>{foo\<close>; a newline and \<open>|> foo\<close>; a single
  newline; a newline and \<open>foo\<close>.  A NUL character in the text is a significant character, not
  the end of the input.
\<close>

lemma scan_newline_brace:
  "tree_sitter_dang_external_scanner_scan NULL
     \<lparr>consumed = [], remaining = [10, 123, 102, 111, 111], result_symbol = 7\<rparr> (\<lambda>i. i = 0) =
   (False, \<lparr>consumed = [10], remaining = [123, 102, 111, 111], result_symbol = 7\<rparr>)"
  by (simp add: tree_sitter_dang_external_scanner_scan_def Let_def skip_whitespace.simps
        lookahead_def advance_def eof_def is_continuation_start_def AUTOMATIC_NEWLINE_def)

lemma scan_newline_pipe:
  "tree_sitter_dang_external_scanner_scan NULL
     \<lparr>consumed = [], remaining = [10, 124, 62, 32, 102, 111, 111], result_symbol = 7\<rparr>
     (\<lambda>i. i = 0) =
   (False, \<lparr>consumed = [10], remaining = [124, 62, 32, 102, 111, 111], result_symbol = 7\<rparr>)"
  by (simp add: tree_sitter_dang_external_scanner_scan_def Let_def skip_whitespace.simps
        lookahead_def advance_def eof_def is_continuation_start_def AUTOMATIC_NEWLINE_def)

lemma scan_newline_only:
  "tree_sitter_dang_external_scanner_scan NULL
     \<lparr>consumed = [], remaining = [10], result_symbol = 7\<rparr> (\<lambda>i. i = 0) =
   (False, \<lparr>consumed = [10], remaining = [], result_symbol = 7\<rparr>)"
  by (simp add: tree_sitter_dang_external_scanner_scan_def Let_def skip_whitespace.simps
        lookahead_def advance_def eof_def is_continuation_start_def AUTOMATIC_NEWLINE_def)

lemma scan_newline_foo:
  "tree_sitter_dang_external_scanner_scan NULL
     \<lparr>consumed = [], remaining = [10, 102, 111, 111], result_symbol = 7\<rparr> (\<lambda>i. i = 0) =
   (True, \<lparr>consumed = [10], remaining = [102, 111, 111], result_symbol = 0\<rparr>)"
  by (simp add: tree_sitter_dang_external_scanner_scan_def Let_def skip_whitespace.simps
        lookahead_def advance_def eof_def is_continuation_start_def AUTOMATIC_NEWLINE_def)

lemma scan_newline_nul:
  "tree_sitter_dang_external_scanner_scan NULL
     \<lparr>consumed = [], remaining = [10, 0, 102], result_symbol = 7\<rparr> (\<lambda>i. i = 0) =
   (True, \<lparr>consumed = [10], remaining = [0, 102], result_symbol = 0\<rparr>)"
  by (simp add: tree_sitter_dang_external_scanner_scan_def Let_def skip_whitespace.simps
        lookahead_def advance_def eof_def is_continuation_start_def AUTOMATIC_NEWLINE_def)

section \<open>The claims\<close>

text \<open>
  C1.  When the automatic-newline token is permitted, the cursor is on a newline, and the
  first character after the whitespace (spaces, tabs, carriage returns, newlines) that
  follows exists and is none of dot, opening brace and pipe, the scan returns true
  (Separator), sets the result symbol to the automatic-newline token, and leaves the cursor
  at that first significant character: the newline and the whitespace are consumed, nothing
  else is.
\<close>

theorem C1_separator:
  assumes "valid_symbols AUTOMATIC_NEWLINE"
    and "remaining lexer = 10 # ws @ c # rest"
    and "set ws \<subseteq> {32, 9, 13, 10}"
    and "c \<notin> {32, 9, 13, 10}"
    and "c \<notin> {46, 123, 124}"
  shows "tree_sitter_dang_external_scanner_scan payload lexer valid_symbols =
     (True, lexer\<lparr>consumed := consumed lexer @ 10 # ws, remaining := c # rest,
                  result_symbol := of_nat AUTOMATIC_NEWLINE\<rparr>)"
  using assms by (rule scan_separator)

text \<open>The input is a newline, a blank line, an indented blank line and \<open>foo\<close>.\<close>

theorem C1_separator_witness:
  "tree_sitter_dang_external_scanner_scan NULL
     \<lparr>consumed = [], remaining = [10, 10, 32, 32, 32, 10, 102, 111, 111], result_symbol = 7\<rparr>
     (\<lambda>i. i = 0) =
   (True, \<lparr>consumed = [10, 10, 32, 32, 32, 10], remaining = [102, 111, 111],
           result_symbol = 0\<rparr>)"
  using C1_separator [where valid_symbols = "\<lambda>i. i = 0" and payload = NULL
      and lexer = "\<lparr>consumed = [], remaining = [10, 10, 32, 32, 32, 10, 102, 111, 111],
                    result_symbol = 7\<rparr>"
      and ws = "[10, 32, 32, 32, 10]" and c = 102 and rest = "[111, 111]"]
  by (simp add: AUTOMATIC_NEWLINE_def)

text \<open>
  C2.  When the automatic-newline token is permitted, the cursor is on a newline, and the
  first character after the whitespace that follows is a dot, an opening brace or a pipe,
  the scan returns false (NotApplicable) and leaves the cursor immediately before that
  character.
\<close>

theorem C2_continuation:
  assumes "valid_symbols AUTOMATIC_NEWLINE"
    and "remaining lexer = 10 # ws @ c # rest"
    and "set ws \<subseteq> {32, 9, 13, 10}"
    and "c \<in> {46, 123, 124}"
  shows "tree_sitter_dang_external_scanner_scan payload lexer valid_symbols =
     (False, lexer\<lparr>consumed := consumed lexer @ 10 # ws, remaining := c # rest\<rparr>)"
proof -
  from assms(4) have "c \<notin> {32, 9, 13, 10}" and "is_continuation_start c"
    by (auto simp: is_continuation_start_def)
  then show ?thesis
    using scan_after_newline [of valid_symbols lexer ws "c # rest" payload] assms(1,2,3)
    by (simp add: Let_def lookahead_def)
qed

text \<open>The input is a newline, two spaces and \<open>.foo\<close>.\<close>

theorem C2_continuation_witness:
  "tree_sitter_dang_external_scanner_scan NULL
     \<lparr>consumed = [], remaining = [10, 32, 32, 46, 102, 111, 111], result_symbol = 7\<rparr>
     (\<lambda>i. i = 0) =
   (False, \<lparr>consumed = [10, 32, 32], remaining = [46, 102, 111, 111], result_symbol = 7\<rparr>)"
  using C2_continuation [where valid_symbols = "\<lambda>i. i = 0" and payload = NULL
      and lexer = "\<lparr>consumed = [], remaining = [10, 32, 32, 46, 102, 111, 111],
                    result_symbol = 7\<rparr>"
      and ws = "[32, 32]" and c = 46 and rest = "[102, 111, 111]"]
  by (simp add: AUTOMATIC_NEWLINE_def)

text \<open>
  C3.  When the automatic-newline token is permitted, the cursor is on a newline, and only
  whitespace remains before the end of the input, the scan returns false (NotApplicable);
  the cursor is then at the end of the input.
\<close>

theorem C3_end_of_input:
  assumes "valid_symbols AUTOMATIC_NEWLINE"
    and "remaining lexer = 10 # ws"
    and "set ws \<subseteq> {32, 9, 13, 10}"
  shows "tree_sitter_dang_external_scanner_scan payload lexer valid_symbols =
     (False, lexer\<lparr>consumed := consumed lexer @ 10 # ws, remaining := []\<rparr>)"
  using scan_after_newline [of valid_symbols lexer ws "[]" payload] assms
  by (simp add: Let_def lookahead_def eof_def is_continuation_start_def)

text \<open>The input is a newline, a carriage return, a newline and a tab.\<close>

theorem C3_end_of_input_witness:
  "tree_sitter_dang_external_scanner_scan NULL
     \<lparr>consumed = [102], remaining = [10, 13, 10, 9], result_symbol = 7\<rparr> (\<lambda>i. i = 0) =
   (False, \<lparr>consumed = [102, 10, 13, 10, 9], remaining = [], result_symbol = 7\<rparr>)"
  using C3_end_of_input [where valid_symbols = "\<lambda>i. i = 0" and payload = NULL
      and lexer = "\<lparr>consumed = [102], remaining = [10, 13, 10, 9], result_symbol = 7\<rparr>"
      and ws = "[13, 10, 9]"]
  by (simp add: AUTOMATIC_NEWLINE_def)

text \<open>
  C4.  If the automatic-newline token is not permitted, or the character under the cursor is
  not a newline, the scan returns false (NotApplicable) and hands the lexer back as it got
  it: nothing is consumed.  Hence the cursor moves only if the token is permitted and the
  cursor is on a newline.
\<close>

theorem C4_guards_leave_cursor:
  "(\<not> valid_symbols AUTOMATIC_NEWLINE \<or> lookahead lexer \<noteq> 10 \<longrightarrow>
      tree_sitter_dang_external_scanner_scan payload lexer valid_symbols = (False, lexer)) \<and>
   (snd (tree_sitter_dang_external_scanner_scan payload lexer valid_symbols) \<noteq> lexer \<longrightarrow>
      valid_symbols AUTOMATIC_NEWLINE \<and> lookahead lexer = 10)"
  by (auto simp: tree_sitter_dang_external_scanner_scan_def)

text \<open>
  The first input is \<open>foo\<close> with the token permitted, the second is a newline and \<open>foo\<close>
  with the token not permitted.
\<close>

theorem C4_guards_leave_cursor_witness:
  "lookahead \<lparr>consumed = [10], remaining = [102, 111, 111], result_symbol = 7\<rparr> \<noteq> 10 \<and>
   tree_sitter_dang_external_scanner_scan NULL
     \<lparr>consumed = [10], remaining = [102, 111, 111], result_symbol = 7\<rparr> (\<lambda>i. i = 0) =
   (False, \<lparr>consumed = [10], remaining = [102, 111, 111], result_symbol = 7\<rparr>) \<and>
   \<not> (\<lambda>i. i \<noteq> 0) AUTOMATIC_NEWLINE \<and>
   tree_sitter_dang_external_scanner_scan NULL
     \<lparr>consumed = [], remaining = [10, 102, 111, 111], result_symbol = 7\<rparr> (\<lambda>i. i \<noteq> 0) =
   (False, \<lparr>consumed = [], remaining = [10, 102, 111, 111], result_symbol = 7\<rparr>)"
  using
    C4_guards_leave_cursor [where valid_symbols = "\<lambda>i. i = 0" and payload = NULL
      and lexer = "\<lparr>consumed = [10], remaining = [102, 111, 111], result_symbol = 7\<rparr>"]
    C4_guards_leave_cursor [where valid_symbols = "\<lambda>i. i \<noteq> 0" and payload = NULL
      and lexer = "\<lparr>consumed = [], remaining = [10, 102, 111, 111], result_symbol = 7\<rparr>"]
  by (simp add: AUTOMATIC_NEWLINE_def lookahead_def)

text \<open>
  C5.  The scan returns true (Separator) if and only if the automatic-newline token is
  permitted, the cursor is on a newline, and the first character after the whitespace that
  follows exists and is none of dot, opening brace and pipe.  The verdict is a \<open>bool\<close>, so in
  every other case it is false (NotApplicable).
\<close>

theorem C5_separator_iff:
  "fst (tree_sitter_dang_external_scanner_scan payload lexer valid_symbols) =
     (valid_symbols AUTOMATIC_NEWLINE \<and>
      (\<exists>ws c rest. remaining lexer = 10 # ws @ c # rest \<and> set ws \<subseteq> {32, 9, 13, 10} \<and>
         c \<notin> {32, 9, 13, 10} \<and> c \<notin> {46, 123, 124}))"
proof
  assume true: "fst (tree_sitter_dang_external_scanner_scan payload lexer valid_symbols)"
  then have "valid_symbols AUTOMATIC_NEWLINE"
    using scan_guards [of valid_symbols lexer payload] by fastforce
  with scan_true_shape [OF true]
  show "valid_symbols AUTOMATIC_NEWLINE \<and>
      (\<exists>ws c rest. remaining lexer = 10 # ws @ c # rest \<and> set ws \<subseteq> {32, 9, 13, 10} \<and>
         c \<notin> {32, 9, 13, 10} \<and> c \<notin> {46, 123, 124})"
    by blast
next
  assume "valid_symbols AUTOMATIC_NEWLINE \<and>
      (\<exists>ws c rest. remaining lexer = 10 # ws @ c # rest \<and> set ws \<subseteq> {32, 9, 13, 10} \<and>
         c \<notin> {32, 9, 13, 10} \<and> c \<notin> {46, 123, 124})"
  then obtain ws c rest where "valid_symbols AUTOMATIC_NEWLINE"
      "remaining lexer = 10 # ws @ c # rest" "set ws \<subseteq> {32, 9, 13, 10}"
      "c \<notin> {32, 9, 13, 10}" "c \<notin> {46, 123, 124}"
    by blast
  then show "fst (tree_sitter_dang_external_scanner_scan payload lexer valid_symbols)"
    using scan_separator [of valid_symbols lexer ws c rest payload] by simp
qed

text \<open>
  On a newline, a tab and \<open>|x\<close> the scan returns false, so no decomposition of the input
  into a newline, whitespace and a significant character other than dot, brace and pipe
  exists.
\<close>

theorem C5_separator_iff_witness:
  "\<not> fst (tree_sitter_dang_external_scanner_scan NULL
       \<lparr>consumed = [], remaining = [10, 9, 124, 120], result_symbol = 7\<rparr> (\<lambda>i. i = 0)) \<and>
   \<not> (\<exists>ws c rest. [10, 9, 124, 120] = 10 # ws @ c # rest \<and> set ws \<subseteq> {32, 9, 13, 10} \<and>
         c \<notin> {32, 9, 13, 10} \<and> c \<notin> {46, 123, (124::int32_t)})"
proof -
  let ?lexer = "\<lparr>consumed = [], remaining = [10, 9, 124, 120], result_symbol = 7\<rparr>"
  have "\<not> fst (tree_sitter_dang_external_scanner_scan NULL ?lexer (\<lambda>i. i = 0))"
    by (simp add: tree_sitter_dang_external_scanner_scan_def Let_def skip_whitespace_takeWhile
          lookahead_def advance_def is_continuation_start_def AUTOMATIC_NEWLINE_def)
  then show ?thesis
    using C5_separator_iff [where valid_symbols = "\<lambda>i. i = 0" and payload = NULL
        and lexer = ?lexer]
    by (simp add: AUTOMATIC_NEWLINE_def)
qed

text \<open>
  C6.  The whitespace loop is a total function of the lexer (its termination is proved with
  the definition: the number of characters ahead decreases).  It consumes exactly the
  longest run of spaces, tabs, carriage returns and newlines at the cursor and stops at the
  first other character or at end-of-input; the input as a whole is unchanged, so the cursor
  never passes its end; and whenever the loop condition holds the cursor is not at
  end-of-input and the advance of that iteration consumes one character.
\<close>

theorem C6_skip_whitespace:
  "skip_whitespace lexer =
     lexer\<lparr>consumed := consumed lexer @ takeWhile (\<lambda>c. c \<in> {32, 9, 13, 10}) (remaining lexer),
           remaining := dropWhile (\<lambda>c. c \<in> {32, 9, 13, 10}) (remaining lexer)\<rparr> \<and>
   consumed (skip_whitespace lexer) @ remaining (skip_whitespace lexer) =
     consumed lexer @ remaining lexer \<and>
   (lookahead lexer \<in> {32, 9, 13, 10} \<longrightarrow>
      \<not> eof lexer \<and>
      Suc (length (remaining (advance lexer False))) = length (remaining lexer))"
proof (intro conjI impI)
  show "skip_whitespace lexer =
     lexer\<lparr>consumed := consumed lexer @ takeWhile (\<lambda>c. c \<in> {32, 9, 13, 10}) (remaining lexer),
           remaining := dropWhile (\<lambda>c. c \<in> {32, 9, 13, 10}) (remaining lexer)\<rparr>"
    by (rule skip_whitespace_takeWhile)
  show "consumed (skip_whitespace lexer) @ remaining (skip_whitespace lexer) =
     consumed lexer @ remaining lexer"
    by (rule skip_whitespace_input)
next
  assume "lookahead lexer \<in> {32, 9, 13, 10}"
  then have ahead: "remaining lexer \<noteq> []"
    by (auto simp: lookahead_def)
  then show "\<not> eof lexer"
    by (cases "remaining lexer") (simp_all add: eof_def)
  from ahead show "Suc (length (remaining (advance lexer False))) = length (remaining lexer)"
    by (cases "remaining lexer") (simp_all add: advance_def)
qed

text \<open>
  The lexer has consumed the first newline of a newline, a blank line, an indented blank
  line and \<open>foo\<close>.
\<close>

theorem C6_skip_whitespace_witness:
  "lookahead \<lparr>consumed = [10], remaining = [10, 32, 32, 32, 10, 102, 111, 111],
              result_symbol = 7\<rparr> \<in> {32, 9, 13, 10} \<and>
   skip_whitespace \<lparr>consumed = [10], remaining = [10, 32, 32, 32, 10, 102, 111, 111],
                    result_symbol = 7\<rparr> =
     \<lparr>consumed = [10, 10, 32, 32, 32, 10], remaining = [102, 111, 111], result_symbol = 7\<rparr> \<and>
   \<not> eof \<lparr>consumed = [10], remaining = [10, 32, 32, 32, 10, 102, 111, 111],
            result_symbol = 7\<rparr> \<and>
   length (remaining (advance \<lparr>consumed = [10],
       remaining = [10, 32, 32, 32, 10, 102, 111, 111], result_symbol = 7\<rparr> False)) = 7"
  using C6_skip_whitespace [where
      lexer = "\<lparr>consumed = [10], remaining = [10, 32, 32, 32, 10, 102, 111, 111],
                result_symbol = 7\<rparr>"]
  by (simp add: lookahead_def)

text \<open>
  C7.  If a scan returns false (NotApplicable) and leaves the cursor on a character that is
  not a newline, a second scan from that lexer, with any payload and any flags, returns false
  again and leaves the lexer as it is.
\<close>

theorem C7_idempotent:
  assumes "tree_sitter_dang_external_scanner_scan payload lexer valid_symbols = (False, lexer')"
    and "lookahead lexer' \<noteq> 10"
  shows "tree_sitter_dang_external_scanner_scan payload' lexer' valid_symbols' = (False, lexer')"
  using assms(2) by (simp add: scan_guards)

text \<open>The first scan runs on a newline, a space and \<open>{a\<close>, and stops before the brace.\<close>

theorem C7_idempotent_witness:
  "tree_sitter_dang_external_scanner_scan (Addr 5)
     \<lparr>consumed = [10, 32], remaining = [123, 97], result_symbol = 7\<rparr> (\<lambda>i. True) =
   (False, \<lparr>consumed = [10, 32], remaining = [123, 97], result_symbol = 7\<rparr>)"
proof -
  let ?lexer = "\<lparr>consumed = [], remaining = [10, 32, 123, 97], result_symbol = 7\<rparr>"
  let ?lexer' = "\<lparr>consumed = [10, 32], remaining = [123, 97], result_symbol = 7\<rparr>"
  have first: "tree_sitter_dang_external_scanner_scan NULL ?lexer (\<lambda>i. i = 0) = (False, ?lexer')"
    by (simp add: tree_sitter_dang_external_scanner_scan_def Let_def skip_whitespace_takeWhile
          lookahead_def advance_def is_continuation_start_def AUTOMATIC_NEWLINE_def)
  have look: "lookahead ?lexer' \<noteq> 10"
    by (simp add: lookahead_def)
  show ?thesis
    by (rule C7_idempotent [OF first look])
qed

text \<open>
  C8.  For every payload, buffer, length and memory: create returns the null pointer,
  serialize returns 0, and none of create, destroy, serialize and deserialize changes the
  memory; the memory is also the same after any sequence of calls of the five entry
  points, however many scans it holds.
\<close>

theorem C8_lifecycle:
  "tree_sitter_dang_external_scanner_create mem = (NULL, mem) \<and>
   tree_sitter_dang_external_scanner_destroy payload mem = mem \<and>
   tree_sitter_dang_external_scanner_serialize payload buffer mem = (0, mem) \<and>
   tree_sitter_dang_external_scanner_deserialize payload buffer len mem = mem \<and>
   fst (run_calls calls (mem, lexer)) = mem"
  by (simp add: tree_sitter_dang_external_scanner_create_def
        tree_sitter_dang_external_scanner_destroy_def
        tree_sitter_dang_external_scanner_serialize_def
        tree_sitter_dang_external_scanner_deserialize_def run_calls_memory)

text \<open>
  C9.  The scan does not read its payload: two scans that differ only in the payload return
  the same verdict and the same lexer, so they consume the same characters.
\<close>

theorem C9_payload_unused:
  "tree_sitter_dang_external_scanner_scan payload1 lexer valid_symbols =
   tree_sitter_dang_external_scanner_scan payload2 lexer valid_symbols"
  by (simp add: tree_sitter_dang_external_scanner_scan_def)

text \<open>
  C10.  A scan that returns false (NotApplicable) leaves the result symbol of the lexer as
  it was before the call.
\<close>

theorem C10_result_symbol:
  assumes "\<not> fst (tree_sitter_dang_external_scanner_scan payload lexer valid_symbols)"
  shows "result_symbol (snd (tree_sitter_dang_external_scanner_scan payload lexer valid_symbols)) =
         result_symbol lexer"
  using assms
  by (simp add: tree_sitter_dang_external_scanner_scan_def Let_def
        skip_whitespace_result_symbol advance_result_symbol split: if_splits)

text \<open>The input is a newline, two newlines and \<open>.x\<close>; the result symbol was 7.\<close>

theorem C10_result_symbol_witness:
  "\<not> fst (tree_sitter_dang_external_scanner_scan NULL
       \<lparr>consumed = [], remaining = [10, 10, 10, 46, 120], result_symbol = 7\<rparr> (\<lambda>i. i = 0)) \<and>
   result_symbol (snd (tree_sitter_dang_external_scanner_scan NULL
       \<lparr>consumed = [], remaining = [10, 10, 10, 46, 120], result_symbol = 7\<rparr> (\<lambda>i. i = 0))) = 7"
proof -
  let ?lexer = "\<lparr>consumed = [], remaining = [10, 10, 10, 46, 120], result_symbol = 7\<rparr>"
  have false: "\<not> fst (tree_sitter_dang_external_scanner_scan NULL ?lexer (\<lambda>i. i = 0))"
    by (simp add: tree_sitter_dang_external_scanner_scan_def Let_def skip_whitespace_takeWhile
          lookahead_def advance_def is_continuation_start_def AUTOMATIC_NEWLINE_def)
  from C10_result_symbol [OF false] false show ?thesis
    by simp
qed

end
